theory Spec2Isabelle
  imports Complex_Main "HOL-Library.AList"
begin

section \<open>Data model (base-sms.provider.ts)\<close>

text \<open>
  JavaScript numbers are modelled as exact reals (counters as naturals); IEEE rounding,
  NaN and the infinities are outside the model. Optional fields are \<open>option\<close> values.
  The untyped bags \<open>credentials\<close> and \<open>config\<close> of \<open>SMSProviderConfig\<close> are never read by
  the routing code and are left out.
\<close>

record SMSProviderConfig =
  name :: string
  supportedCountries :: "string list"
  supportedNetworks :: "string list option"
  priority :: "real option"
  maxRetries :: "nat option"
  timeout :: "nat option"

text \<open>\<open>SendSMSOptions.message\<close> is named \<open>sms_message\<close>: \<open>ProviderResponse\<close> has a field
  \<open>message\<close> as well.\<close>

record SendSMSOptions =
  recipient :: string
  sms_message :: string
  senderId :: string
  messageId :: "string option"

datatype response_status =
  submitted | sent | delivered | failed | rejected | invalid_parameters
  | authentication_error | insufficient_credit | provider_error

record ProviderResponse =
  success :: bool
  status :: response_status
  externalId :: "string option"
  message :: "string option"
  errorCode :: "string option"
  providerId :: string
  cost :: "real option"
  currency :: "string option"
  metadata :: "(string \<times> string) list option"

datatype delivery_state = Sent | Delivered | Failed | Pending | Unknown

record DeliveryStatus =
  ds_status :: delivery_state
  ds_timestamp :: "nat option"
  ds_externalId :: string
  ds_error :: "string option"

record ProviderBalance =
  balance :: real
  bal_currency :: string
  bal_error :: "string option"

record ProviderStats =
  totalSent :: nat
  totalDelivered :: nat
  totalFailed :: nat
  successRate :: real
  avgLatency :: real
  lastUsed :: "nat option"

text \<open>A thrown value whose properties can be read (an \<open>Error\<close> object, or a primitive,
  whose properties read as \<open>undefined\<close>): the two properties the router reads from it.\<close>

record js_error =
  err_message :: "string option"
  err_errorCode :: "string option"

text \<open>What a method can throw: \<open>undefined\<close> or \<open>null\<close>, or a value as above.\<close>

datatype thrown = Nullish | Thrown_value js_error

text \<open>Reading a property of \<open>undefined\<close> or \<open>null\<close> raises a \<open>TypeError\<close>; it is the one
  exception that the code of the router, the registry and the base class can raise itself.\<close>

datatype rejection = TypeError

text \<open>\<open>error.message\<close>, which raises on \<open>undefined\<close> and \<open>null\<close>, and the null-safe
  \<open>error?.message\<close> and \<open>error?.errorCode\<close>.\<close>

definition read_message :: "thrown \<Rightarrow> rejection + string option" where
  "read_message error =
     (case error of Nullish \<Rightarrow> Inl TypeError | Thrown_value e \<Rightarrow> Inr (err_message e))"

definition safe_message :: "thrown \<Rightarrow> string option" where
  "safe_message error = (case error of Nullish \<Rightarrow> None | Thrown_value e \<Rightarrow> err_message e)"

definition safe_errorCode :: "thrown \<Rightarrow> string option" where
  "safe_errorCode error = (case error of Nullish \<Rightarrow> None | Thrown_value e \<Rightarrow> err_errorCode e)"

text \<open>
  An adapter object: the fields of \<open>BaseSMSProvider\<close> and the fields \<open>'s\<close> of its subclass.
  The three abstract methods are a record of functions that take the object and return the
  outcome (\<open>Inl\<close>: the method threw) with the object as the call left it.
\<close>

record 's BaseSMSProvider =
  config :: SMSProviderConfig
  stats :: ProviderStats
  own_state :: 's

record 's provider_methods =
  sendSMS_impl ::
    "'s BaseSMSProvider \<Rightarrow> SendSMSOptions \<Rightarrow> (thrown + ProviderResponse) \<times> 's BaseSMSProvider"
  getDeliveryStatus_impl ::
    "'s BaseSMSProvider \<Rightarrow> string \<Rightarrow> (thrown + DeliveryStatus) \<times> 's BaseSMSProvider"
  checkBalance_impl ::
    "'s BaseSMSProvider \<Rightarrow> (thrown + ProviderBalance) \<times> 's BaseSMSProvider"

text \<open>The constructor of \<open>BaseSMSProvider\<close>.\<close>

definition initial_stats :: ProviderStats where
  "initial_stats =
     \<lparr>totalSent = 0, totalDelivered = 0, totalFailed = 0, successRate = 0,
      avgLatency = 0, lastUsed = None\<rparr>"

definition new_provider :: "SMSProviderConfig \<Rightarrow> 's \<Rightarrow> 's BaseSMSProvider" where
  "new_provider c s = \<lparr>config = c, stats = initial_stats, own_state = s\<rparr>"

subsection \<open>JavaScript truthiness\<close>

text \<open>\<open>x || d\<close> and \<open>if (x)\<close> on an optional string: \<open>undefined\<close> and \<open>''\<close> are falsy.\<close>

definition truthy :: "string option \<Rightarrow> bool" where
  "truthy x = (case x of None \<Rightarrow> False | Some s \<Rightarrow> s \<noteq> [])"

definition or_else :: "string option \<Rightarrow> string \<Rightarrow> string" where
  "or_else x d = (case x of None \<Rightarrow> d | Some s \<Rightarrow> if s = [] then d else s)"

text \<open>\<open>x || d\<close> on a number: \<open>undefined\<close> and \<open>0\<close> are falsy.\<close>

definition nz_or_else :: "real \<Rightarrow> real \<Rightarrow> real" where
  "nz_or_else v d = (if v = 0 then d else v)"

definition num_or_else :: "real option \<Rightarrow> real \<Rightarrow> real" where
  "num_or_else x d = (case x of None \<Rightarrow> d | Some v \<Rightarrow> nz_or_else v d)"

subsection \<open>Methods of \<open>BaseSMSProvider\<close>\<close>

definition supportsCountry :: "'s BaseSMSProvider \<Rightarrow> string \<Rightarrow> bool" where
  "supportsCountry p countryCode \<longleftrightarrow> countryCode \<in> set (supportedCountries (config p))"

definition supportsNetwork :: "'s BaseSMSProvider \<Rightarrow> string \<Rightarrow> bool" where
  "supportsNetwork p network =
     (case supportedNetworks (config p) of
        None \<Rightarrow> True
      | Some ns \<Rightarrow> network \<in> set ns)"

text \<open>\<open>updateStats(success, latency?)\<close> on the stats record; \<open>now\<close> is the reading of
  \<open>new Date()\<close>. The test \<open>if (latency)\<close> skips an absent latency and a latency of 0.\<close>

definition updateStats :: "bool \<Rightarrow> real option \<Rightarrow> nat \<Rightarrow> ProviderStats \<Rightarrow> ProviderStats" where
  "updateStats ok latency now s =
     (let s1 = s\<lparr>totalSent := totalSent s + 1\<rparr>;
          s2 = (if ok then s1\<lparr>totalDelivered := totalDelivered s1 + 1\<rparr>
                else s1\<lparr>totalFailed := totalFailed s1 + 1\<rparr>);
          s3 = s2\<lparr>successRate := real (totalDelivered s2) / real (totalSent s2) * 100\<rparr>;
          s4 = (case latency of
                  None \<Rightarrow> s3
                | Some l \<Rightarrow>
                    if l = 0 then s3
                    else (let totalLatency = avgLatency s3 * real (totalSent s3 - 1)
                          in s3\<lparr>avgLatency := (totalLatency + l) / real (totalSent s3)\<rparr>))
      in s4\<lparr>lastUsed := Some now\<rparr>)"

text \<open>A sequence of recorded attempts: (success, latency, time) per call, oldest first.\<close>

fun record_attempts :: "(bool \<times> real option \<times> nat) list \<Rightarrow> ProviderStats \<Rightarrow> ProviderStats" where
  "record_attempts [] s = s"
| "record_attempts ((ok, latency, now) # rest) s = record_attempts rest (updateStats ok latency now s)"

section \<open>Registry (provider.factory.ts)\<close>

text \<open>
  \<open>SMSProviderFactory.providers\<close> is a \<open>Map\<close>: keys are unique and iteration follows
  insertion order. It is an association list from the key to the adapter object and its
  methods; \<open>providers.set\<close> is \<open>AList.update\<close>, which replaces in place or appends.
\<close>

type_synonym 's entry = "string \<times> 's BaseSMSProvider \<times> 's provider_methods"
type_synonym 's registry = "'s entry list"

definition providers_set :: "string \<Rightarrow> 's BaseSMSProvider \<times> 's provider_methods \<Rightarrow> 's registry \<Rightarrow> 's registry" where
  "providers_set k v reg = AList.update k v reg"

text \<open>\<open>name.toLowerCase()\<close> is the runtime's lowering of a Unicode string. Strings are byte
  strings here, so the function is the parameter \<open>toLowerCase\<close> of \<open>getProvider\<close> and of
  \<open>checkDeliveryStatus\<close>, and what is proved of them holds for every such function.\<close>

definition getProvider ::
  "(string \<Rightarrow> string) \<Rightarrow> 's registry \<Rightarrow> string
     \<Rightarrow> ('s BaseSMSProvider \<times> 's provider_methods) option" where
  "getProvider toLowerCase reg nm = map_of reg (toLowerCase nm)"

text \<open>An array of adapter objects is the list of their entries: the key is the reference.\<close>

definition getAllProviders :: "'s registry \<Rightarrow> 's entry list" where
  "getAllProviders reg = reg"

definition entry_priority :: "'s entry \<Rightarrow> real" where
  "entry_priority e = num_or_else (priority (config (fst (snd e)))) 999"

definition country_eligible :: "string \<Rightarrow> 's entry \<Rightarrow> bool" where
  "country_eligible countryCode e \<longleftrightarrow>
     supportsCountry (fst (snd e)) countryCode \<or> ''*'' \<in> set (supportedCountries (config (fst (snd e))))"

text \<open>\<open>Array.prototype.sort\<close> is stable; with the comparator \<open>a - b\<close> on keys it is
  \<open>sort_key\<close>, the stable insertion sort.\<close>

definition getProvidersForCountry :: "'s registry \<Rightarrow> string \<Rightarrow> 's entry list" where
  "getProvidersForCountry reg countryCode =
     sort_key entry_priority (filter (country_eligible countryCode) (getAllProviders reg))"

definition getProvidersForNetwork :: "'s registry \<Rightarrow> string \<Rightarrow> string \<Rightarrow> 's entry list" where
  "getProvidersForNetwork reg countryCode network =
     filter (\<lambda>e. supportsNetwork (fst (snd e)) network) (getProvidersForCountry reg countryCode)"

text \<open>\<open>healthCheck\<close> and \<open>testConnection\<close> of \<open>BaseSMSProvider\<close>, given the adapter's methods.\<close>

record health =
  healthy :: bool
  hc_message :: string
  hc_balance :: "real option"

text \<open>The \<open>catch\<close> of \<open>healthCheck\<close> reads \<open>error.message\<close>: on a thrown \<open>undefined\<close> or
  \<open>null\<close> it raises, and \<open>healthCheck\<close> rejects.\<close>

definition healthCheck ::
  "'s provider_methods \<Rightarrow> 's BaseSMSProvider \<Rightarrow> (rejection + health) \<times> 's BaseSMSProvider" where
  "healthCheck m p =
     (case checkBalance_impl m p of
        (Inr b, p') \<Rightarrow>
          if truthy (bal_error b)
          then (Inr \<lparr>healthy = False, hc_message = or_else (bal_error b) [],
                     hc_balance = None\<rparr>, p')
          else (Inr \<lparr>healthy = True, hc_message = ''Provider is healthy'',
                     hc_balance = Some (balance b)\<rparr>, p')
      | (Inl error, p') \<Rightarrow>
          (case read_message error of
             Inl raised \<Rightarrow> (Inl raised, p')
           | Inr msg \<Rightarrow>
               (Inr \<lparr>healthy = False, hc_message = or_else msg ''Health check failed'',
                     hc_balance = None\<rparr>, p')))"

definition testConnection :: "'s provider_methods \<Rightarrow> 's BaseSMSProvider \<Rightarrow> bool \<times> 's BaseSMSProvider" where
  "testConnection m p =
     (case checkBalance_impl m p of
        (Inr b, p') \<Rightarrow> (balance b \<ge> 0, p')
      | (Inl error, p') \<Rightarrow> (False, p'))"

text \<open>
  \<open>healthCheckAll\<close>: the loop over the map, with no \<open>try\<close> around it, so a rejecting
  \<open>healthCheck\<close> ends it. It returns the result object (or the exception), the registry
  with every adapter as its balance check left it, and the keys whose \<open>checkBalance\<close> ran,
  in order.
\<close>

fun healthCheckAll_loop ::
  "'s registry \<Rightarrow> (string \<rightharpoonup> health)
     \<Rightarrow> (rejection + (string \<rightharpoonup> health)) \<times> 's registry \<times> string list" where
  "healthCheckAll_loop [] results = (Inr results, [], [])"
| "healthCheckAll_loop ((nm, provider, m) # rest) results =
     (case healthCheck m provider of
        (Inl raised, provider') \<Rightarrow> (Inl raised, (nm, provider', m) # rest, [nm])
      | (Inr h, provider') \<Rightarrow>
          (case healthCheckAll_loop rest (results(nm \<mapsto> h)) of
             (r, rest', calls) \<Rightarrow> (r, (nm, provider', m) # rest', nm # calls)))"

definition healthCheckAll ::
  "'s registry \<Rightarrow> (rejection + (string \<rightharpoonup> health)) \<times> 's registry \<times> string list" where
  "healthCheckAll reg = healthCheckAll_loop reg Map.empty"

section \<open>Router (provider.router.ts)\<close>

text \<open>\<open>lastError\<close> holds nothing, a failed response or a caught exception; it is read with
  \<open>lastError?.message\<close> and \<open>lastError?.errorCode\<close>.\<close>

datatype last_error = Undefined | Response ProviderResponse | Thrown thrown

fun last_message :: "last_error \<Rightarrow> string option" where
  "last_message Undefined = None"
| "last_message (Response r) = message r"
| "last_message (Thrown e) = safe_message e"

fun last_errorCode :: "last_error \<Rightarrow> string option" where
  "last_errorCode Undefined = None"
| "last_errorCode (Response r) = errorCode r"
| "last_errorCode (Thrown e) = safe_errorCode e"

definition lookup_providers :: "'s registry \<Rightarrow> string \<Rightarrow> string option \<Rightarrow> 's entry list" where
  "lookup_providers reg country network =
     (case network of
        None \<Rightarrow> getProvidersForCountry reg country
      | Some n \<Rightarrow> if n = [] then getProvidersForCountry reg country
                  else getProvidersForNetwork reg country n)"

definition no_provider_response :: "string \<Rightarrow> string option \<Rightarrow> ProviderResponse" where
  "no_provider_response country network =
     \<lparr>success = False, status = failed, externalId = None,
      message = Some (''No SMS providers available for '' @ country @
                      (case network of None \<Rightarrow> [] | Some n \<Rightarrow> if n = [] then [] else ''/'' @ n)),
      errorCode = Some ''NO_PROVIDER'', providerId = ''none'',
      cost = None, currency = None, metadata = None\<rparr>"

definition all_failed_response :: "last_error \<Rightarrow> ProviderResponse" where
  "all_failed_response lastError =
     \<lparr>success = False, status = failed, externalId = None,
      message = Some (or_else (last_message lastError) ''All providers failed''),
      errorCode = Some (or_else (last_errorCode lastError) ''ALL_FAILED''),
      providerId = ''multiple'', cost = None, currency = None, metadata = None\<rparr>"

text \<open>The outer \<open>catch\<close> of \<open>sendSMS\<close> reads \<open>error.message\<close>: on a thrown \<open>undefined\<close> or
  \<open>null\<close> the handler itself raises.\<close>

definition catch_routing_error :: "thrown \<Rightarrow> rejection + ProviderResponse" where
  "catch_routing_error error =
     (case read_message error of
        Inl raised \<Rightarrow> Inl raised
      | Inr msg \<Rightarrow>
          Inr \<lparr>success = False, status = failed, externalId = None,
               message = Some (or_else msg ''SMS routing failed''),
               errorCode = Some ''ROUTING_ERROR'', providerId = ''router'',
               cost = None, currency = None, metadata = None\<rparr>)"

text \<open>
  The \<open>for\<close> loop of \<open>sendSMS\<close>. The result is \<open>Inl\<close> the response returned from inside the
  loop, or \<open>Inr\<close> the value of \<open>lastError\<close> when the loop ran out; with it the adapters
  whose \<open>sendSMS\<close> was invoked, in order, each as its call left it. The candidates are
  distinct objects and each is invoked at most once, so the object a call starts from is
  the one the registry holds.
\<close>

fun try_providers ::
  "'s entry list \<Rightarrow> SendSMSOptions \<Rightarrow> last_error \<Rightarrow> (ProviderResponse + last_error) \<times> 's entry list" where
  "try_providers [] options lastError = (Inr lastError, [])"
| "try_providers ((k, provider, m) # rest) options lastError =
     (case sendSMS_impl m provider options of
        (Inr response, provider') \<Rightarrow>
          if success response then (Inl response, [(k, provider', m)])
          else (case try_providers rest options (Response response) of
                  (r, touched) \<Rightarrow> (r, (k, provider', m) # touched))
      | (Inl error, provider') \<Rightarrow>
          (case try_providers rest options (Thrown error) of
             (r, touched) \<Rightarrow> (r, (k, provider', m) # touched)))"

text \<open>The mutated adapter objects, seen through the registry.\<close>

definition write_back :: "'s entry list \<Rightarrow> 's registry \<Rightarrow> 's registry" where
  "write_back touched reg = fold (\<lambda>e. AList.update (fst e) (snd e)) touched reg"

text \<open>The body of the outer \<open>try\<close> block. The registry lookup is its first statement; \<open>Inl\<close>
  stands for an exception escaping from it.\<close>

definition sendSMS_try ::
  "(thrown + 's entry list) \<Rightarrow> SendSMSOptions \<Rightarrow> string \<Rightarrow> string option
     \<Rightarrow> (thrown + ProviderResponse) \<times> 's entry list" where
  "sendSMS_try lookup options country network =
     (case lookup of
        Inl error \<Rightarrow> (Inl error, [])
      | Inr providers \<Rightarrow>
          if length providers = 0 then (Inr (no_provider_response country network), [])
          else (case try_providers providers options Undefined of
                  (Inl response, touched) \<Rightarrow> (Inr response, touched)
                | (Inr lastError, touched) \<Rightarrow> (Inr (all_failed_response lastError), touched)))"

record 's send_run =
  returned :: "rejection + ProviderResponse"
  invoked :: "string list"
  providers_after :: "'s registry"

text \<open>\<open>sendSMS\<close> with the outer \<open>catch\<close>, for a given outcome of the registry lookup.\<close>

definition sendSMS_on ::
  "(thrown + 's entry list) \<Rightarrow> 's registry \<Rightarrow> SendSMSOptions \<Rightarrow> string \<Rightarrow> string option
     \<Rightarrow> 's send_run" where
  "sendSMS_on lookup reg options country network =
     (case sendSMS_try lookup options country network of
        (Inr response, touched) \<Rightarrow>
          \<lparr>returned = Inr response, invoked = map fst touched,
           providers_after = write_back touched reg\<rparr>
      | (Inl error, touched) \<Rightarrow>
          \<lparr>returned = catch_routing_error error, invoked = map fst touched,
           providers_after = write_back touched reg\<rparr>)"

definition sendSMS :: "'s registry \<Rightarrow> SendSMSOptions \<Rightarrow> string \<Rightarrow> string option \<Rightarrow> 's send_run" where
  "sendSMS reg options country network =
     sendSMS_on (Inr (lookup_providers reg country network)) reg options country network"

datatype criterion = by_cost | by_speed | by_reliability

definition speed_key :: "'s entry \<Rightarrow> real" where
  "speed_key e = nz_or_else (avgLatency (stats (fst (snd e)))) 1000"

definition reliability_key :: "'s entry \<Rightarrow> real" where
  "reliability_key e = nz_or_else (successRate (stats (fst (snd e)))) 0"

text \<open>The comparator \<open>rateB - rateA\<close> sorts descending: the stable sort on the negated key.\<close>

definition getBestProvider ::
  "'s registry \<Rightarrow> string \<Rightarrow> string option \<Rightarrow> criterion option \<Rightarrow> 's entry option" where
  "getBestProvider reg country network criteria =
     (let providers = lookup_providers reg country network in
      if length providers = 0 then None
      else (case criteria of
              Some by_speed \<Rightarrow> Some (hd (sort_key speed_key providers))
            | Some by_reliability \<Rightarrow> Some (hd (sort_key (\<lambda>e. - reliability_key e) providers))
            | _ \<Rightarrow> Some (hd providers)))"

text \<open>The probing loop of \<open>checkDeliveryStatus\<close>: an adapter that throws is skipped.\<close>

fun probe_all :: "'s entry list \<Rightarrow> string \<Rightarrow> DeliveryStatus option \<times> 's entry list" where
  "probe_all [] eid = (None, [])"
| "probe_all ((k, provider, m) # rest) eid =
     (case getDeliveryStatus_impl m provider eid of
        (Inr st, provider') \<Rightarrow>
          if ds_status st \<noteq> Unknown then (Some st, [(k, provider', m)])
          else (case probe_all rest eid of
                  (r, touched) \<Rightarrow> (r, (k, provider', m) # touched))
      | (Inl error, provider') \<Rightarrow>
          (case probe_all rest eid of
             (r, touched) \<Rightarrow> (r, (k, provider', m) # touched)))"

definition checkDeliveryStatus_try ::
  "(string \<Rightarrow> string) \<Rightarrow> 's registry \<Rightarrow> string \<Rightarrow> string option
     \<Rightarrow> (thrown + DeliveryStatus) \<times> 's entry list" where
  "checkDeliveryStatus_try toLowerCase reg eid providerName =
     (case (if truthy providerName then getProvider toLowerCase reg (or_else providerName [])
            else None) of
        Some (provider, m) \<Rightarrow>
          (case getDeliveryStatus_impl m provider eid of
             (r, provider') \<Rightarrow> (r, [(toLowerCase (or_else providerName []), provider', m)]))
      | None \<Rightarrow>
          (case probe_all (getAllProviders reg) eid of
             (Some st, touched) \<Rightarrow> (Inr st, touched)
           | (None, touched) \<Rightarrow>
               (Inr \<lparr>ds_status = Unknown, ds_timestamp = None, ds_externalId = eid,
                     ds_error = Some ''Could not get status from any provider''\<rparr>, touched)))"

record 's status_run =
  status_returned :: "rejection + DeliveryStatus"
  queried :: "string list"
  registry_after :: "'s registry"

text \<open>The outer \<open>catch\<close> of \<open>checkDeliveryStatus\<close> reads \<open>error.message\<close> as well.\<close>

definition checkDeliveryStatus ::
  "(string \<Rightarrow> string) \<Rightarrow> 's registry \<Rightarrow> string \<Rightarrow> string option \<Rightarrow> 's status_run" where
  "checkDeliveryStatus toLowerCase reg eid providerName =
     (case checkDeliveryStatus_try toLowerCase reg eid providerName of
        (Inr st, touched) \<Rightarrow>
          \<lparr>status_returned = Inr st, queried = map fst touched,
           registry_after = write_back touched reg\<rparr>
      | (Inl error, touched) \<Rightarrow>
          \<lparr>status_returned =
             (case read_message error of
                Inl raised \<Rightarrow> Inl raised
              | Inr msg \<Rightarrow>
                  Inr \<lparr>ds_status = Unknown, ds_timestamp = None, ds_externalId = eid,
                       ds_error = msg\<rparr>),
           queried = map fst touched, registry_after = write_back touched reg\<rparr>)"

section \<open>Observations used in the statements\<close>

text \<open>What the \<open>sendSMS\<close> of a candidate answers on the object the registry holds, whether
  that is a success, and what the loop stores in \<open>lastError\<close> for it.\<close>

definition send_outcome :: "SendSMSOptions \<Rightarrow> 's entry \<Rightarrow> thrown + ProviderResponse" where
  "send_outcome options e = fst (sendSMS_impl (snd (snd e)) (fst (snd e)) options)"

definition succeeded :: "thrown + ProviderResponse \<Rightarrow> bool" where
  "succeeded r = (case r of Inr resp \<Rightarrow> success resp | Inl e \<Rightarrow> False)"

definition as_last_error :: "thrown + ProviderResponse \<Rightarrow> last_error" where
  "as_last_error r = (case r of Inr resp \<Rightarrow> Response resp | Inl e \<Rightarrow> Thrown e)"

definition status_outcome :: "string \<Rightarrow> 's entry \<Rightarrow> thrown + DeliveryStatus" where
  "status_outcome eid e = fst (getDeliveryStatus_impl (snd (snd e)) (fst (snd e)) eid)"

definition status_known :: "thrown + DeliveryStatus \<Rightarrow> bool" where
  "status_known r = (case r of Inr st \<Rightarrow> ds_status st \<noteq> Unknown | Inl e \<Rightarrow> False)"

definition balance_outcome :: "'s entry \<Rightarrow> thrown + ProviderBalance" where
  "balance_outcome e = fst (checkBalance_impl (snd (snd e)) (fst (snd e)))"

text \<open>The numbers M and F of successful and failed attempts in a sequence of recorded attempts.\<close>

definition successes :: "(bool \<times> real option \<times> nat) list \<Rightarrow> nat" where
  "successes xs = length (filter fst xs)"

definition failures :: "(bool \<times> real option \<times> nat) list \<Rightarrow> nat" where
  "failures xs = length (filter (\<lambda>x. \<not> fst x) xs)"

text \<open>The exhaustion outcome in the specification's words: the last failure outcome with
  \<open>providerId\<close> overridden and the error code \<open>ALL_FAILED\<close> unless it carried one.\<close>

definition spec_exhausted_outcome :: "ProviderResponse \<Rightarrow> ProviderResponse" where
  "spec_exhausted_outcome l =
     l\<lparr>providerId := ''multiple'',
       errorCode := Some (case errorCode l of None \<Rightarrow> ''ALL_FAILED'' | Some c \<Rightarrow> c)\<rparr>"

text \<open>Health in the specification's words: no error and a balance of at least 0.\<close>

definition spec_healthy :: "thrown + ProviderBalance \<Rightarrow> bool" where
  "spec_healthy r = (case r of Inr b \<Rightarrow> bal_error b = None \<and> balance b \<ge> 0 | Inl e \<Rightarrow> False)"

section \<open>Example adapters\<close>

text \<open>A stub adapter answers every call with a fixed outcome; as the adapters of the
  repository do, its \<open>sendSMS\<close> records the attempt in its statistics.\<close>

definition stub_methods ::
  "(thrown + ProviderResponse) \<Rightarrow> (thrown + DeliveryStatus) \<Rightarrow> (thrown + ProviderBalance)
     \<Rightarrow> unit provider_methods" where
  "stub_methods s d b =
     \<lparr>sendSMS_impl = (\<lambda>p options. (s, p\<lparr>stats := updateStats (succeeded s) None 0 (stats p)\<rparr>)),
      getDeliveryStatus_impl = (\<lambda>p eid. (d, p)),
      checkBalance_impl = (\<lambda>p. (b, p))\<rparr>"

definition stub_config :: "string \<Rightarrow> string list \<Rightarrow> real option \<Rightarrow> SMSProviderConfig" where
  "stub_config nm countries pr =
     \<lparr>name = nm, supportedCountries = countries, supportedNetworks = None, priority = pr,
      maxRetries = None, timeout = None\<rparr>"

definition example_options :: SendSMSOptions where
  "example_options =
     \<lparr>recipient = ''+233201234567'', sms_message = ''hello'', senderId = ''MyApp'',
      messageId = None\<rparr>"

definition credit_failure :: ProviderResponse where
  "credit_failure =
     \<lparr>success = False, status = insufficient_credit, externalId = None,
      message = Some ''Insufficient credit'', errorCode = Some ''1704'', providerId = ''a'',
      cost = None, currency = None, metadata = None\<rparr>"

definition accepted :: ProviderResponse where
  "accepted =
     \<lparr>success = True, status = submitted, externalId = Some ''abc123'',
      message = Some ''Message submitted'', errorCode = None, providerId = ''b'',
      cost = None, currency = None, metadata = None\<rparr>"

definition timeout_error :: thrown where
  "timeout_error = Thrown_value \<lparr>err_message = Some ''socket hang up'', err_errorCode = None\<rparr>"

text \<open>\<open>toLowerCase\<close> on strings of ASCII characters, for the examples.\<close>

definition ascii_toLowerCase :: "string \<Rightarrow> string" where
  "ascii_toLowerCase s =
     map (\<lambda>c. if 65 \<le> (of_char c :: nat) \<and> (of_char c :: nat) \<le> 90
              then char_of ((of_char c :: nat) + 32) else c) s"

definition status_sent :: DeliveryStatus where
  "status_sent =
     \<lparr>ds_status = Sent, ds_timestamp = Some 0, ds_externalId = ''abc123'', ds_error = None\<rparr>"

definition status_unknown :: DeliveryStatus where
  "status_unknown =
     \<lparr>ds_status = Unknown, ds_timestamp = None, ds_externalId = ''abc123'',
      ds_error = Some ''not found''\<rparr>"

definition balance_ok :: ProviderBalance where
  "balance_ok = \<lparr>balance = 100, bal_currency = ''USD'', bal_error = None\<rparr>"

definition balance_overdrawn :: ProviderBalance where
  "balance_overdrawn = \<lparr>balance = - 5, bal_currency = ''USD'', bal_error = None\<rparr>"

definition balance_unavailable :: ProviderBalance where
  "balance_unavailable =
     \<lparr>balance = 0, bal_currency = ''GHS'', bal_error = Some ''Failed to get balance''\<rparr>"

text \<open>A (priority 1) fails for lack of credit, B (priority 2) accepts, T (priority 1)
  throws an error, N (priority 1) throws \<open>undefined\<close>; all serve Ghana.\<close>

definition adapter_a :: "unit BaseSMSProvider \<times> unit provider_methods" where
  "adapter_a = (new_provider (stub_config ''A'' [''GH''] (Some 1)) (),
                stub_methods (Inr credit_failure) (Inr status_unknown) (Inr balance_unavailable))"

definition adapter_b :: "unit BaseSMSProvider \<times> unit provider_methods" where
  "adapter_b = (new_provider (stub_config ''B'' [''GH''] (Some 2)) (),
                stub_methods (Inr accepted) (Inr status_sent) (Inr balance_ok))"

definition adapter_t :: "unit BaseSMSProvider \<times> unit provider_methods" where
  "adapter_t = (new_provider (stub_config ''T'' [''GH''] (Some 1)) (),
                stub_methods (Inl timeout_error) (Inl timeout_error) (Inl timeout_error))"

definition adapter_n :: "unit BaseSMSProvider \<times> unit provider_methods" where
  "adapter_n = (new_provider (stub_config ''N'' [''GH''] (Some 1)) (),
                stub_methods (Inl Nullish) (Inl Nullish) (Inl Nullish))"

definition registry_ab :: "unit registry" where
  "registry_ab = providers_set ''b'' adapter_b (providers_set ''a'' adapter_a [])"

definition registry_ta :: "unit registry" where
  "registry_ta = providers_set ''a'' adapter_a (providers_set ''t'' adapter_t [])"

definition registry_nb :: "unit registry" where
  "registry_nb = providers_set ''b'' adapter_b (providers_set ''n'' adapter_n [])"







text \<open>An adapter that has answered once, after 2000 ms, and one that was never used.\<close>

definition adapter_slow :: "unit BaseSMSProvider \<times> unit provider_methods" where
  "adapter_slow =
     ((new_provider (stub_config ''Slow'' [''GH''] (Some 1)) ())
        \<lparr>stats := updateStats True (Some 2000) 0 initial_stats\<rparr>,
      stub_methods (Inr accepted) (Inr status_sent) (Inr balance_ok))"

definition adapter_fresh :: "unit BaseSMSProvider \<times> unit provider_methods" where
  "adapter_fresh = (new_provider (stub_config ''Fresh'' [''GH''] (Some 2)) (),
                    stub_methods (Inr accepted) (Inr status_sent) (Inr balance_ok))"

definition registry_speed :: "unit registry" where
  "registry_speed = providers_set ''fresh'' adapter_fresh (providers_set ''slow'' adapter_slow [])"

text \<open>An adapter whose account is overdrawn, and a global fallback as Twilio is configured.\<close>

definition adapter_overdrawn :: "unit BaseSMSProvider \<times> unit provider_methods" where
  "adapter_overdrawn = (new_provider (stub_config ''Overdrawn'' [''GH''] (Some 1)) (),
                        stub_methods (Inr accepted) (Inr status_sent) (Inr balance_overdrawn))"

definition registry_health :: "unit registry" where
  "registry_health =
     providers_set ''a'' adapter_a (providers_set ''overdrawn'' adapter_overdrawn [])"

definition adapter_global :: "unit BaseSMSProvider \<times> unit provider_methods" where
  "adapter_global = (new_provider (stub_config ''Twilio'' [''*''] (Some 10)) (),
                     stub_methods (Inr accepted) (Inr status_sent) (Inr balance_ok))"

definition registry_global :: "unit registry" where
  "registry_global = providers_set ''twilio'' adapter_global (providers_set ''a'' adapter_a [])"

section \<open>Properties of the failover loop\<close>

lemma try_providers_first_success:
  "k < length cands \<Longrightarrow>
   (\<And>i. i < k \<Longrightarrow> \<not> succeeded (send_outcome options (cands ! i))) \<Longrightarrow>
   send_outcome options (cands ! k) = Inr r \<Longrightarrow> success r \<Longrightarrow>
   fst (try_providers cands options lastError) = Inl r \<and>
   map fst (snd (try_providers cands options lastError)) = take (Suc k) (map fst cands)"
proof (induction cands options lastError arbitrary: k rule: try_providers.induct)
  case (1 options lastError)
  then show ?case by simp
next
  case (2 key provider m rest options lastError)
  obtain out provider' where call: "sendSMS_impl m provider options = (out, provider')"
    by (cases "sendSMS_impl m provider options")
  show ?case
  proof (cases k)
    case 0
    with 2(3-) call show ?thesis
      by (simp add: send_outcome_def)
  next
    case (Suc j)
    have first_fails: "\<not> succeeded out"
      using 2(4)[of 0] Suc call by (simp add: send_outcome_def)
    have later: "\<And>i. i < j \<Longrightarrow> \<not> succeeded (send_outcome options (rest ! i))"
      using 2(4) Suc by fastforce
    have j: "j < length rest" using 2(3) Suc by simp
    have at_j: "send_outcome options (rest ! j) = Inr r" using 2(5) Suc by simp
    show ?thesis
    proof (cases out)
      case (Inl error)
      from "2.IH"(1)[OF call[symmetric] Inl j later at_j "2.prems"(4)]
      show ?thesis using call Inl Suc
        by (auto split: prod.splits)
    next
      case (Inr response)
      with first_fails have nok: "\<not> success response" by (simp add: succeeded_def)
      from "2.IH"(2)[OF call[symmetric] Inr nok j later at_j "2.prems"(4)]
      show ?thesis using call Inr nok Suc
        by (auto split: prod.splits)
    qed
  qed
qed

lemma try_providers_all_fail:
  "cands \<noteq> [] \<Longrightarrow>
   (\<And>e. e \<in> set cands \<Longrightarrow> \<not> succeeded (send_outcome options e)) \<Longrightarrow>
   fst (try_providers cands options lastError) = Inr (as_last_error (send_outcome options (last cands))) \<and>
   map fst (snd (try_providers cands options lastError)) = map fst cands"
proof (induction cands options lastError rule: try_providers.induct)
  case (1 options lastError)
  then show ?case by simp
next
  case (2 key provider m rest options lastError)
  obtain out provider' where call: "sendSMS_impl m provider options = (out, provider')"
    by (cases "sendSMS_impl m provider options")
  have first_fails: "\<not> succeeded out"
    using "2.prems"(2)[of "(key, provider, m)"] call by (simp add: send_outcome_def)
  have later: "\<And>e. e \<in> set rest \<Longrightarrow> \<not> succeeded (send_outcome options e)"
    using "2.prems"(2) by simp
  show ?case
  proof (cases out)
    case (Inl error)
    show ?thesis
    proof (cases "rest = []")
      case True
      then show ?thesis using call Inl by (simp add: send_outcome_def as_last_error_def)
    next
      case False
      from "2.IH"(1)[OF call[symmetric] Inl False later]
      show ?thesis using call Inl False by (auto split: prod.splits)
    qed
  next
    case (Inr response)
    with first_fails have nok: "\<not> success response" by (simp add: succeeded_def)
    show ?thesis
    proof (cases "rest = []")
      case True
      then show ?thesis using call Inr nok by (simp add: send_outcome_def as_last_error_def)
    next
      case False
      from "2.IH"(2)[OF call[symmetric] Inr nok False later]
      show ?thesis using call Inr nok False by (auto split: prod.splits)
    qed
  qed
qed

subsection \<open>The example registries\<close>

lemma registry_ab_list: "registry_ab = [(''a'', adapter_a), (''b'', adapter_b)]"
  by (simp add: registry_ab_def providers_set_def)

lemma registry_ta_list: "registry_ta = [(''t'', adapter_t), (''a'', adapter_a)]"
  by (simp add: registry_ta_def providers_set_def)

lemma priority_a: "entry_priority (k, adapter_a) = 1"
  by (simp add: entry_priority_def adapter_a_def new_provider_def stub_config_def
      num_or_else_def nz_or_else_def)

lemma priority_b: "entry_priority (k, adapter_b) = 2"
  by (simp add: entry_priority_def adapter_b_def new_provider_def stub_config_def
      num_or_else_def nz_or_else_def)

lemma priority_t: "entry_priority (k, adapter_t) = 1"
  by (simp add: entry_priority_def adapter_t_def new_provider_def stub_config_def
      num_or_else_def nz_or_else_def)

lemma eligible_a: "country_eligible c (k, adapter_a) \<longleftrightarrow> c = ''GH''"
  by (auto simp add: country_eligible_def supportsCountry_def adapter_a_def new_provider_def
      stub_config_def)

lemma eligible_b: "country_eligible c (k, adapter_b) \<longleftrightarrow> c = ''GH''"
  by (auto simp add: country_eligible_def supportsCountry_def adapter_b_def new_provider_def
      stub_config_def)

lemma eligible_t: "country_eligible c (k, adapter_t) \<longleftrightarrow> c = ''GH''"
  by (auto simp add: country_eligible_def supportsCountry_def adapter_t_def new_provider_def
      stub_config_def)

lemma lookup_ab_GH:
  "lookup_providers registry_ab ''GH'' None = [(''a'', adapter_a), (''b'', adapter_b)]"
  by (simp add: lookup_providers_def getProvidersForCountry_def getAllProviders_def
      registry_ab_list eligible_a eligible_b priority_a priority_b)

lemma lookup_ab_ZZ: "lookup_providers registry_ab ''ZZ'' None = []"
  by (simp add: lookup_providers_def getProvidersForCountry_def getAllProviders_def
      registry_ab_list eligible_a eligible_b)

lemma lookup_ta_GH:
  "lookup_providers registry_ta ''GH'' None = [(''t'', adapter_t), (''a'', adapter_a)]"
  by (simp add: lookup_providers_def getProvidersForCountry_def getAllProviders_def
      registry_ta_list eligible_a eligible_t priority_a priority_t)

lemma outcome_a: "send_outcome options (k, adapter_a) = Inr credit_failure"
  by (simp add: send_outcome_def adapter_a_def stub_methods_def)

lemma outcome_b: "send_outcome options (k, adapter_b) = Inr accepted"
  by (simp add: send_outcome_def adapter_b_def stub_methods_def)

lemma outcome_t: "send_outcome options (k, adapter_t) = Inl timeout_error"
  by (simp add: send_outcome_def adapter_t_def stub_methods_def)

section \<open>Properties of \<open>sendSMS\<close>\<close>

text \<open>
  Claim C1: when the k-th candidate of the registry lookup (counted from 0 here) is the
  first whose \<open>sendSMS\<close> returns an outcome with \<open>success = true\<close>, the router invokes
  \<open>sendSMS\<close> on the first k+1 candidates, in order, and on no other, and returns that
  outcome unchanged.
\<close>

theorem sendSMS_stops_at_first_success:
  assumes "k < length (lookup_providers reg country network)"
    and "\<forall>i<k. \<not> succeeded (send_outcome options (lookup_providers reg country network ! i))"
    and "send_outcome options (lookup_providers reg country network ! k) = Inr r"
    and "success r"
  shows "returned (sendSMS reg options country network) = Inr r \<and>
         invoked (sendSMS reg options country network) =
           take (Suc k) (map fst (lookup_providers reg country network))"
proof -
  let ?cands = "lookup_providers reg country network"
  have nonempty: "?cands \<noteq> []" using assms(1) by auto
  have loop: "fst (try_providers ?cands options Undefined) = Inl r \<and>
              map fst (snd (try_providers ?cands options Undefined)) = take (Suc k) (map fst ?cands)"
    using try_providers_first_success[OF assms(1) _ assms(3) assms(4)] assms(2) by blast
  obtain res touched where run: "try_providers ?cands options Undefined = (res, touched)"
    by (cases "try_providers ?cands options Undefined")
  with loop have "res = Inl r" and "map fst touched = take (Suc k) (map fst ?cands)" by simp_all
  with run nonempty show ?thesis
    by (simp add: sendSMS_def sendSMS_on_def sendSMS_try_def)
qed

theorem sendSMS_stops_at_first_success_witness:
  "1 < length (lookup_providers registry_ab ''GH'' None) \<and>
   \<not> succeeded (send_outcome example_options (lookup_providers registry_ab ''GH'' None ! 0)) \<and>
   send_outcome example_options (lookup_providers registry_ab ''GH'' None ! 1) = Inr accepted \<and>
   success accepted \<and>
   returned (sendSMS registry_ab example_options ''GH'' None) = Inr accepted \<and>
   invoked (sendSMS registry_ab example_options ''GH'' None) = [''a'', ''b'']"
proof -
  have h1: "1 < length (lookup_providers registry_ab ''GH'' None)"
    by (simp add: lookup_ab_GH)
  have h0: "\<not> succeeded (send_outcome example_options (lookup_providers registry_ab ''GH'' None ! 0))"
    by (simp add: lookup_ab_GH outcome_a succeeded_def credit_failure_def)
  then have h2: "\<forall>i<1. \<not> succeeded (send_outcome example_options (lookup_providers registry_ab ''GH'' None ! i))"
    by simp
  have h3: "send_outcome example_options (lookup_providers registry_ab ''GH'' None ! 1) = Inr accepted"
    by (simp add: lookup_ab_GH outcome_b)
  have h4: "success accepted" by (simp add: accepted_def)
  from sendSMS_stops_at_first_success[OF h1 h2 h3 h4] h1 h0 h3 h4
  show ?thesis by (simp add: lookup_ab_GH)
qed

text \<open>
  The scenario of the specification: A fails and is charged a failed attempt, B accepts
  and is charged a delivered one.
\<close>

lemma sendSMS_scenario_stats:
  "map (\<lambda>e. (fst e, totalSent (stats (fst (snd e))), totalDelivered (stats (fst (snd e))),
              totalFailed (stats (fst (snd e)))))
     (providers_after (sendSMS registry_ab example_options ''GH'' None)) =
   [(''a'', 1, 0, 1), (''b'', 1, 1, 0)]"
  unfolding sendSMS_def lookup_ab_GH
  by (simp add: sendSMS_on_def sendSMS_try_def adapter_a_def adapter_b_def stub_methods_def
      credit_failure_def accepted_def write_back_def registry_ab_list succeeded_def
      updateStats_def Let_def new_provider_def initial_stats_def)

text \<open>
  Claim C2, as the code has it: when the candidate list is not empty and every candidate
  fails (answers \<open>success = false\<close> or throws), every candidate is invoked and the router
  returns a new outcome with \<open>success = false\<close>, status \<open>failed\<close> and providerId
  \<open>multiple\<close>; its message and error code are those of the last failure, or
  \<open>All providers failed\<close> and \<open>ALL_FAILED\<close> where the last failure has none (or an empty
  one). No other field of the last failure is carried over.
\<close>

theorem sendSMS_all_failed:
  assumes "lookup_providers reg country network \<noteq> []"
    and "\<forall>e \<in> set (lookup_providers reg country network). \<not> succeeded (send_outcome options e)"
  shows "returned (sendSMS reg options country network) =
           Inr \<lparr>success = False, status = failed, externalId = None,
                message = Some (or_else (last_message (as_last_error (send_outcome options
                            (last (lookup_providers reg country network))))) ''All providers failed''),
                errorCode = Some (or_else (last_errorCode (as_last_error (send_outcome options
                            (last (lookup_providers reg country network))))) ''ALL_FAILED''),
                providerId = ''multiple'', cost = None, currency = None, metadata = None\<rparr> \<and>
         invoked (sendSMS reg options country network) = map fst (lookup_providers reg country network)"
proof -
  let ?cands = "lookup_providers reg country network"
  have nonempty: "?cands \<noteq> []" using assms(1) by auto
  have loop: "fst (try_providers ?cands options Undefined) =
                Inr (as_last_error (send_outcome options (last ?cands))) \<and>
              map fst (snd (try_providers ?cands options Undefined)) = map fst ?cands"
    using try_providers_all_fail[OF assms(1)] assms(2) by blast
  obtain res touched where run: "try_providers ?cands options Undefined = (res, touched)"
    by (cases "try_providers ?cands options Undefined")
  with loop have "res = Inr (as_last_error (send_outcome options (last ?cands)))"
    and "map fst touched = map fst ?cands" by simp_all
  with run nonempty show ?thesis
    by (simp add: sendSMS_def sendSMS_on_def sendSMS_try_def all_failed_response_def)
qed

theorem sendSMS_all_failed_witness:
  "lookup_providers registry_ta ''GH'' None \<noteq> [] \<and>
   \<not> succeeded (send_outcome example_options (''t'', adapter_t)) \<and>
   \<not> succeeded (send_outcome example_options (''a'', adapter_a)) \<and>
   returned (sendSMS registry_ta example_options ''GH'' None) =
     Inr \<lparr>success = False, status = failed, externalId = None,
          message = Some ''Insufficient credit'', errorCode = Some ''1704'',
          providerId = ''multiple'', cost = None, currency = None, metadata = None\<rparr> \<and>
   invoked (sendSMS registry_ta example_options ''GH'' None) = [''t'', ''a'']"
proof -
  have h1: "lookup_providers registry_ta ''GH'' None \<noteq> []" by (simp add: lookup_ta_GH)
  have ft: "\<not> succeeded (send_outcome example_options (''t'', adapter_t))"
    by (simp add: outcome_t succeeded_def)
  have fa: "\<not> succeeded (send_outcome example_options (''a'', adapter_a))"
    by (simp add: outcome_a succeeded_def credit_failure_def)
  have h2: "\<forall>e \<in> set (lookup_providers registry_ta ''GH'' None).
              \<not> succeeded (send_outcome example_options e)"
    using ft fa by (simp add: lookup_ta_GH)
  from sendSMS_all_failed[OF h1 h2] h1 ft fa
  show ?thesis
    by (simp add: lookup_ta_GH outcome_a as_last_error_def or_else_def credit_failure_def)
qed

text \<open>
  Claim C2 as stated fails: the last failure has the status \<open>insufficient_credit\<close>; the
  router returns the status \<open>failed\<close>, so what it returns is not the last failure outcome
  with only \<open>providerId\<close> and the error code overridden.
\<close>

theorem sendSMS_all_failed_differs_from_last_outcome:
  "lookup_providers registry_ta ''GH'' None = [(''t'', adapter_t), (''a'', adapter_a)] \<and>
   send_outcome example_options (''t'', adapter_t) = Inl timeout_error \<and>
   send_outcome example_options (''a'', adapter_a) = Inr credit_failure \<and>
   \<not> success credit_failure \<and>
   status (spec_exhausted_outcome credit_failure) = insufficient_credit \<and>
   returned (sendSMS registry_ta example_options ''GH'' None) =
     Inr ((spec_exhausted_outcome credit_failure)\<lparr>status := failed\<rparr>) \<and>
   returned (sendSMS registry_ta example_options ''GH'' None) \<noteq>
     Inr (spec_exhausted_outcome credit_failure)"
proof -
  have run: "returned (sendSMS registry_ta example_options ''GH'' None) =
     Inr ((spec_exhausted_outcome credit_failure)\<lparr>status := failed\<rparr>)"
    unfolding sendSMS_def lookup_ta_GH
    by (simp add: sendSMS_on_def sendSMS_try_def adapter_a_def adapter_t_def
        stub_methods_def all_failed_response_def or_else_def credit_failure_def
        spec_exhausted_outcome_def)
  have differ: "(spec_exhausted_outcome credit_failure)\<lparr>status := failed\<rparr> \<noteq>
                spec_exhausted_outcome credit_failure"
    by (simp add: spec_exhausted_outcome_def credit_failure_def)
  have st: "status (spec_exhausted_outcome credit_failure) = insufficient_credit"
    by (simp add: spec_exhausted_outcome_def credit_failure_def)
  have nok: "\<not> success credit_failure" by (simp add: credit_failure_def)
  show ?thesis
    using run differ st nok lookup_ta_GH outcome_t[of example_options "''t''"]
      outcome_a[of example_options "''a''"]
    by simp
qed

text \<open>
  Claim C3: when the registry lookup yields no candidate, the router returns
  \<open>success = false\<close>, status \<open>failed\<close> and error code \<open>NO_PROVIDER\<close>, invokes no adapter
  and leaves every adapter (hence every statistics record) as it was.
\<close>

theorem sendSMS_no_provider:
  assumes "lookup_providers reg country network = []"
  shows "returned (sendSMS reg options country network) = Inr (no_provider_response country network) \<and>
         success (no_provider_response country network) = False \<and>
         status (no_provider_response country network) = failed \<and>
         errorCode (no_provider_response country network) = Some ''NO_PROVIDER'' \<and>
         invoked (sendSMS reg options country network) = [] \<and>
         providers_after (sendSMS reg options country network) = reg"
  using assms
  by (simp add: sendSMS_def sendSMS_on_def sendSMS_try_def no_provider_response_def write_back_def)

theorem sendSMS_no_provider_witness:
  "lookup_providers registry_ab ''ZZ'' None = [] \<and>
   returned (sendSMS registry_ab example_options ''ZZ'' None) =
     Inr \<lparr>success = False, status = failed, externalId = None,
          message = Some ''No SMS providers available for ZZ'',
          errorCode = Some ''NO_PROVIDER'', providerId = ''none'',
          cost = None, currency = None, metadata = None\<rparr> \<and>
   invoked (sendSMS registry_ab example_options ''ZZ'' None) = [] \<and>
   providers_after (sendSMS registry_ab example_options ''ZZ'' None) = registry_ab"
  using sendSMS_no_provider[OF lookup_ab_ZZ, of example_options] lookup_ab_ZZ
  by (simp add: no_provider_response_def)



lemma registry_nb_list: "registry_nb = [(''n'', adapter_n), (''b'', adapter_b)]"
  by (simp add: registry_nb_def providers_set_def)







section \<open>Properties of the registry\<close>

lemma getProvidersForCountry_set:
  "set (getProvidersForCountry reg c) = {e \<in> set reg. country_eligible c e}"
  by (simp add: getProvidersForCountry_def getAllProviders_def)



lemma entry_priority_given:
  "priority (config p) = Some v \<Longrightarrow> v \<noteq> 0 \<Longrightarrow> entry_priority (k, p, m) = v"
  by (simp add: entry_priority_def num_or_else_def nz_or_else_def)

lemma entry_priority_default:
  "priority (config p) = None \<or> priority (config p) = Some 0 \<Longrightarrow> entry_priority (k, p, m) = 999"
  by (auto simp add: entry_priority_def num_or_else_def nz_or_else_def)















text \<open>
  Claim C10: an adapter whose supported countries are exactly the wildcard does not
  support a concrete country code by its own \<open>supportsCountry\<close>, and
  \<open>getProvidersForCountry\<close> lists it all the same.
\<close>

theorem wildcard_only_in_registry_filter:
  assumes "(k, p, m) \<in> set reg"
    and "supportedCountries (config p) = [''*'']"
    and "c \<noteq> ''*''"
  shows "\<not> supportsCountry p c \<and> (k, p, m) \<in> set (getProvidersForCountry reg c)"
  using assms
  by (simp add: getProvidersForCountry_set country_eligible_def supportsCountry_def)

lemma registry_global_list: "registry_global = [(''a'', adapter_a), (''twilio'', adapter_global)]"
  by (simp add: registry_global_def providers_set_def)

theorem wildcard_only_in_registry_filter_witness:
  "(''twilio'', adapter_global) \<in> set registry_global \<and>
   supportedCountries (config (fst adapter_global)) = [''*''] \<and>
   ''KE'' \<noteq> ''*'' \<and>
   \<not> supportsCountry (fst adapter_global) ''KE'' \<and>
   (''twilio'', adapter_global) \<in> set (getProvidersForCountry registry_global ''KE'')"
proof -
  have h1: "(''twilio'', fst adapter_global, snd adapter_global) \<in> set registry_global"
    by (simp add: registry_global_list)
  have h2: "supportedCountries (config (fst adapter_global)) = [''*'']"
    by (simp add: adapter_global_def new_provider_def stub_config_def)
  have h3: "''KE'' \<noteq> ''*''" by simp
  from wildcard_only_in_registry_filter[OF h1 h2 h3] h1 h2
  show ?thesis by simp
qed

section \<open>Properties of the statistics\<close>

lemma updateStats_totalSent: "totalSent (updateStats ok latency now s) = totalSent s + 1"
  by (simp add: updateStats_def Let_def split: option.splits)

lemma updateStats_totalDelivered:
  "totalDelivered (updateStats ok latency now s) = totalDelivered s + (if ok then 1 else 0)"
  by (simp add: updateStats_def Let_def split: option.splits)

lemma updateStats_totalFailed:
  "totalFailed (updateStats ok latency now s) = totalFailed s + (if ok then 0 else 1)"
  by (simp add: updateStats_def Let_def split: option.splits)

lemma updateStats_successRate:
  "successRate (updateStats ok latency now s) =
     real (totalDelivered (updateStats ok latency now s)) /
     real (totalSent (updateStats ok latency now s)) * 100"
  by (simp add: updateStats_def Let_def split: option.splits)

lemma updateStats_avgLatency:
  "l \<noteq> 0 \<Longrightarrow>
   avgLatency (updateStats ok (Some l) now s) =
     (avgLatency s * (real (totalSent (updateStats ok (Some l) now s)) - 1) + l)
       / real (totalSent (updateStats ok (Some l) now s))"
  by (simp add: updateStats_def Let_def)

lemma updateStats_avgLatency_skipped:
  "latency = None \<or> latency = Some 0 \<Longrightarrow>
   avgLatency (updateStats ok latency now s) = avgLatency s"
  by (auto simp add: updateStats_def Let_def)

lemma record_attempts_totalSent:
  "totalSent (record_attempts xs s) = totalSent s + successes xs + failures xs"
  by (induction xs s rule: record_attempts.induct)
     (auto simp: updateStats_totalSent successes_def failures_def)

lemma record_attempts_totalDelivered:
  "totalDelivered (record_attempts xs s) = totalDelivered s + successes xs"
  by (induction xs s rule: record_attempts.induct)
     (auto simp: updateStats_totalDelivered successes_def)

lemma record_attempts_totalFailed:
  "totalFailed (record_attempts xs s) = totalFailed s + failures xs"
  by (induction xs s rule: record_attempts.induct)
     (auto simp: updateStats_totalFailed failures_def)

lemma record_attempts_successRate:
  "xs \<noteq> [] \<Longrightarrow>
   successRate (record_attempts xs s) =
     real (totalDelivered (record_attempts xs s)) / real (totalSent (record_attempts xs s)) * 100"
proof (induction xs s rule: record_attempts.induct)
  case (1 s)
  then show ?case by simp
next
  case (2 ok latency now rest s)
  show ?case
  proof (cases rest)
    case Nil
    then show ?thesis using updateStats_successRate by simp
  next
    case (Cons a list)
    then show ?thesis using 2 by simp
  qed
qed

lemma record_attempts_counters:
  "totalSent (record_attempts xs initial_stats) = successes xs + failures xs \<and>
   totalDelivered (record_attempts xs initial_stats) = successes xs \<and>
   totalFailed (record_attempts xs initial_stats) = failures xs \<and>
   successRate (record_attempts xs initial_stats) =
     (if xs = [] then 0
      else real (successes xs) / real (successes xs + failures xs) * 100)"
proof (cases "xs = []")
  case True
  then show ?thesis by (simp add: initial_stats_def successes_def failures_def)
next
  case False
  have zero: "totalSent initial_stats = 0" "totalDelivered initial_stats = 0"
    "totalFailed initial_stats = 0"
    by (simp_all add: initial_stats_def)
  show ?thesis
    using False record_attempts_successRate[OF False, of initial_stats]
    by (simp add: record_attempts_totalSent record_attempts_totalDelivered
        record_attempts_totalFailed zero)
qed

text \<open>
  Claim C5 at a sequence where it fails: after a first attempt with latency 10, a second
  attempt with the supplied latency 0 leaves the running average at 10; the formula
  \<open>(oldAvg * (n - 1) + latency) / n\<close> with \<open>n = 2\<close> gives 5.
\<close>

theorem updateStats_zero_latency_not_folded:
  "totalSent (record_attempts [(True, Some 10, 1)] initial_stats) = 1 \<and>
   avgLatency (record_attempts [(True, Some 10, 1)] initial_stats) = 10 \<and>
   totalSent (updateStats True (Some 0) 2 (record_attempts [(True, Some 10, 1)] initial_stats)) = 2 \<and>
   avgLatency (updateStats True (Some 0) 2 (record_attempts [(True, Some 10, 1)] initial_stats)) = 10 \<and>
   (10 * (2 - 1) + 0) / 2 = (5 :: real)"
  by (simp add: updateStats_def initial_stats_def Let_def)

section \<open>Properties of \<open>getBestProvider\<close>\<close>

lemma hd_sort_key_least:
  fixes f :: "'a \<Rightarrow> real"
  assumes "xs \<noteq> []"
  shows "hd (sort_key f xs) \<in> set xs \<and>
         (\<forall>x \<in> set xs. f (hd (sort_key f xs)) \<le> f x) \<and>
         hd (sort_key f xs) = hd (filter (\<lambda>x. f x = f (hd (sort_key f xs))) xs)"
proof -
  have "set (sort_key f xs) = set xs" by simp
  with assms have "sort_key f xs \<noteq> []" by (metis set_empty)
  then obtain a rest where s: "sort_key f xs = a # rest" by (cases "sort_key f xs") auto
  have mem: "a \<in> set xs" using s set_sort[of f xs] by (metis list.set_intros(1))
  have "sorted (map f (a # rest))" using sorted_sort_key[of f xs] s by simp
  then have le_rest: "\<forall>x \<in> set rest. f a \<le> f x" by simp
  have least: "\<forall>x \<in> set xs. f a \<le> f x"
  proof
    fix x assume "x \<in> set xs"
    then have "x \<in> set (a # rest)" using s set_sort[of f xs] by simp
    then show "f a \<le> f x" using le_rest by auto
  qed
  have "filter (\<lambda>x. f x = f a) xs = filter (\<lambda>x. f x = f a) (a # rest)"
    using sort_key_stable[of f "f a" xs] s by simp
  then have "hd (filter (\<lambda>x. f x = f a) xs) = a" by simp
  with mem least s show ?thesis by simp
qed

lemma speed_key_eq:
  "speed_key e = (if avgLatency (stats (fst (snd e))) = 0 then 1000
                  else avgLatency (stats (fst (snd e))))"
  by (simp add: speed_key_def nz_or_else_def)

text \<open>
  Claim C6, as the code has it: with criterion \<open>speed\<close> and a candidate list that is not
  empty, \<open>getBestProvider\<close> returns the first candidate (in priority order) whose
  effective latency is lowest, where the effective latency is \<open>avgLatency\<close>, or 1000 for a
  candidate whose \<open>avgLatency\<close> is 0 (none recorded). Such a candidate ranks after the
  candidates with a recorded latency below 1000 and before those above 1000.
\<close>

theorem getBestProvider_speed_least_effective_latency:
  assumes "lookup_providers reg country network \<noteq> []"
  shows "\<exists>e. getBestProvider reg country network (Some by_speed) = Some e \<and>
             e \<in> set (lookup_providers reg country network) \<and>
             (\<forall>e' \<in> set (lookup_providers reg country network). speed_key e \<le> speed_key e') \<and>
             e = hd (filter (\<lambda>x. speed_key x = speed_key e) (lookup_providers reg country network)) \<and>
             speed_key e = (if avgLatency (stats (fst (snd e))) = 0 then 1000
                            else avgLatency (stats (fst (snd e))))"
proof -
  let ?cands = "lookup_providers reg country network"
  have best: "getBestProvider reg country network (Some by_speed) = Some (hd (sort_key speed_key ?cands))"
    using assms by (simp add: getBestProvider_def Let_def)
  show ?thesis
    using hd_sort_key_least[OF assms, of speed_key] best speed_key_eq by blast
qed

lemma registry_speed_list:
  "registry_speed = [(''slow'', adapter_slow), (''fresh'', adapter_fresh)]"
  by (simp add: registry_speed_def providers_set_def)

lemma stats_slow:
  "avgLatency (stats (fst adapter_slow)) = 2000" "totalSent (stats (fst adapter_slow)) = 1"
  by (simp_all add: adapter_slow_def new_provider_def updateStats_def initial_stats_def Let_def)

lemma stats_fresh:
  "avgLatency (stats (fst adapter_fresh)) = 0" "totalSent (stats (fst adapter_fresh)) = 0"
  by (simp_all add: adapter_fresh_def new_provider_def initial_stats_def)

lemma speed_key_slow: "speed_key (k, adapter_slow) = 2000"
  by (simp add: speed_key_eq stats_slow)

lemma speed_key_fresh: "speed_key (k, adapter_fresh) = 1000"
  by (simp add: speed_key_eq stats_fresh)

lemma lookup_speed_GH:
  "lookup_providers registry_speed ''GH'' None = [(''slow'', adapter_slow), (''fresh'', adapter_fresh)]"
  by (simp add: lookup_providers_def getProvidersForCountry_def getAllProviders_def
      registry_speed_list country_eligible_def supportsCountry_def entry_priority_def
      adapter_slow_def adapter_fresh_def new_provider_def stub_config_def
      num_or_else_def nz_or_else_def)

lemma best_speed_GH:
  "getBestProvider registry_speed ''GH'' None (Some by_speed) = Some (''fresh'', adapter_fresh)"
  by (simp add: getBestProvider_def Let_def lookup_speed_GH speed_key_slow speed_key_fresh)

theorem getBestProvider_speed_least_effective_latency_witness:
  "lookup_providers registry_speed ''GH'' None \<noteq> [] \<and>
   (\<exists>e. getBestProvider registry_speed ''GH'' None (Some by_speed) = Some e \<and>
        e \<in> set (lookup_providers registry_speed ''GH'' None) \<and>
        speed_key e = 1000 \<and>
        (\<forall>e' \<in> set (lookup_providers registry_speed ''GH'' None). speed_key e \<le> speed_key e'))"
proof -
  have h: "lookup_providers registry_speed ''GH'' None \<noteq> []" by (simp add: lookup_speed_GH)
  from getBestProvider_speed_least_effective_latency[OF h]
  obtain e where e: "getBestProvider registry_speed ''GH'' None (Some by_speed) = Some e"
    "e \<in> set (lookup_providers registry_speed ''GH'' None)"
    "\<forall>e' \<in> set (lookup_providers registry_speed ''GH'' None). speed_key e \<le> speed_key e'"
    by blast
  from e(1) have "e = (''fresh'', adapter_fresh)" by (simp add: best_speed_GH)
  then have "speed_key e = 1000" by (simp add: speed_key_fresh)
  with h e show ?thesis by blast
qed

text \<open>
  Claim C6 as stated fails: the candidate that has a recorded latency (2000 ms) is passed
  over for the candidate that was never used.
\<close>

theorem getBestProvider_speed_prefers_unused:
  "lookup_providers registry_speed ''GH'' None =
     [(''slow'', adapter_slow), (''fresh'', adapter_fresh)] \<and>
   totalSent (stats (fst adapter_slow)) = 1 \<and> avgLatency (stats (fst adapter_slow)) = 2000 \<and>
   totalSent (stats (fst adapter_fresh)) = 0 \<and> avgLatency (stats (fst adapter_fresh)) = 0 \<and>
   getBestProvider registry_speed ''GH'' None (Some by_speed) = Some (''fresh'', adapter_fresh)"
  by (simp add: lookup_speed_GH stats_slow stats_fresh best_speed_GH)

section \<open>Properties of the health check\<close>

lemma healthCheck_result:
  "fst (healthCheck m p) =
     (case fst (checkBalance_impl m p) of
        Inr b \<Rightarrow>
          Inr (if truthy (bal_error b)
               then \<lparr>healthy = False, hc_message = or_else (bal_error b) [], hc_balance = None\<rparr>
               else \<lparr>healthy = True, hc_message = ''Provider is healthy'',
                     hc_balance = Some (balance b)\<rparr>)
      | Inl Nullish \<Rightarrow> Inl TypeError
      | Inl (Thrown_value e) \<Rightarrow>
          Inr \<lparr>healthy = False, hc_message = or_else (err_message e) ''Health check failed'',
               hc_balance = None\<rparr>)"
  by (cases "checkBalance_impl m p")
     (auto simp: healthCheck_def read_message_def split: sum.splits thrown.splits)

lemma healthCheck_returns:
  assumes "fst (checkBalance_impl m p) \<noteq> Inl Nullish"
  shows "fst (healthCheck m p) =
     Inr (case fst (checkBalance_impl m p) of
            Inr b \<Rightarrow>
              if truthy (bal_error b)
              then \<lparr>healthy = False, hc_message = or_else (bal_error b) [], hc_balance = None\<rparr>
              else \<lparr>healthy = True, hc_message = ''Provider is healthy'',
                    hc_balance = Some (balance b)\<rparr>
          | Inl t \<Rightarrow>
              \<lparr>healthy = False, hc_message = or_else (safe_message t) ''Health check failed'',
               hc_balance = None\<rparr>)"
  using assms
  by (simp add: healthCheck_result safe_message_def split: sum.splits thrown.splits)

lemma healthCheckAll_loop_step:
  assumes "healthCheck m provider = (Inr h, provider')"
    and "healthCheckAll_loop rest (results(nm \<mapsto> h)) = (r, rest', calls)"
  shows "healthCheckAll_loop ((nm, provider, m) # rest) results =
           (r, (nm, provider', m) # rest', nm # calls)"
  using assms by simp

lemma healthCheckAll_loop_stop:
  assumes "healthCheck m provider = (Inl raised, provider')"
  shows "healthCheckAll_loop ((nm, provider, m) # rest) results =
           (Inl raised, (nm, provider', m) # rest, [nm])"
  using assms by simp

lemma healthCheckAll_loop_complete:
  assumes "\<forall>e \<in> set reg. balance_outcome e \<noteq> Inl Nullish"
  shows "\<exists>r. fst (healthCheckAll_loop reg results) = Inr r \<and>
             snd (snd (healthCheckAll_loop reg results)) = map fst reg \<and>
             dom r = dom results \<union> fst ` set reg \<and>
             (\<forall>k. k \<notin> fst ` set reg \<longrightarrow> r k = results k) \<and>
             (distinct (map fst reg) \<longrightarrow>
                (\<forall>e \<in> set reg. Inr (the (r (fst e))) =
                                 fst (healthCheck (snd (snd e)) (fst (snd e))) \<and>
                               r (fst e) \<noteq> None))"
  using assms
proof (induction reg arbitrary: results)
  case Nil
  then show ?case by simp
next
  case (Cons e rest)
  obtain nm provider m where e: "e = (nm, provider, m)" by (cases e)
  have "fst (checkBalance_impl m provider) \<noteq> Inl Nullish"
    using Cons.prems e by (simp add: balance_outcome_def)
  from healthCheck_returns[OF this]
  obtain h provider' where hc: "healthCheck m provider = (Inr h, provider')"
    by (cases "healthCheck m provider") auto
  have rest_ok: "\<forall>e \<in> set rest. balance_outcome e \<noteq> Inl Nullish" using Cons.prems by simp
  from Cons.IH[OF rest_ok, of "results(nm \<mapsto> h)"]
  obtain r where r: "fst (healthCheckAll_loop rest (results(nm \<mapsto> h))) = Inr r"
    "snd (snd (healthCheckAll_loop rest (results(nm \<mapsto> h)))) = map fst rest"
    "dom r = dom (results(nm \<mapsto> h)) \<union> fst ` set rest"
    "\<forall>k. k \<notin> fst ` set rest \<longrightarrow> r k = (results(nm \<mapsto> h)) k"
    "distinct (map fst rest) \<longrightarrow>
       (\<forall>e \<in> set rest. Inr (the (r (fst e))) = fst (healthCheck (snd (snd e)) (fst (snd e))) \<and>
                        r (fst e) \<noteq> None)"
    by blast
  obtain rest' calls where
    run: "healthCheckAll_loop rest (results(nm \<mapsto> h)) = (Inr r, rest', calls)"
    using r(1) by (cases "healthCheckAll_loop rest (results(nm \<mapsto> h))") auto
  have calls: "calls = map fst rest" using r(2) run by simp
  have step: "healthCheckAll_loop (e # rest) results = (Inr r, (nm, provider', m) # rest', nm # calls)"
    unfolding e by (rule healthCheckAll_loop_step[OF hc run])
  have dist: "distinct (map fst (e # rest)) \<longrightarrow>
       (\<forall>x \<in> set (e # rest). Inr (the (r (fst x))) = fst (healthCheck (snd (snd x)) (fst (snd x))) \<and>
                             r (fst x) \<noteq> None)"
  proof
    assume d: "distinct (map fst (e # rest))"
    then have "nm \<notin> fst ` set rest" and d': "distinct (map fst rest)" using e by auto
    with r(4) have "r nm = Some h" by simp
    with hc e r(5) d' show "\<forall>x \<in> set (e # rest).
        Inr (the (r (fst x))) = fst (healthCheck (snd (snd x)) (fst (snd x))) \<and> r (fst x) \<noteq> None"
      by simp
  qed
  have other: "\<forall>k. k \<notin> fst ` set (e # rest) \<longrightarrow> r k = results k"
    using r(4) e by auto
  have doms: "dom r = dom results \<union> fst ` set (e # rest)"
    using r(3) e by auto
  show ?case
    using step calls dist other doms e by simp
qed

lemma healthCheckAll_stops_at_thrown_undefined:
  assumes "balance_outcome (nm, provider, m) = Inl Nullish"
  shows "fst (healthCheckAll ((nm, provider, m) # rest)) = Inl TypeError \<and>
         snd (snd (healthCheckAll ((nm, provider, m) # rest))) = [nm]"
proof -
  have "fst (healthCheck m provider) = Inl TypeError"
    using assms by (simp add: healthCheck_result balance_outcome_def)
  then obtain provider' where "healthCheck m provider = (Inl TypeError, provider')"
    by (cases "healthCheck m provider") auto
  from healthCheckAll_loop_stop[OF this] show ?thesis by (simp add: healthCheckAll_def)
qed

text \<open>
  Claim C8, as the code has it: when no balance check throws \<open>undefined\<close> or \<open>null\<close>,
  \<open>healthCheckAll\<close> runs \<open>checkBalance\<close> once on every registered adapter, in registration
  order, and its mapping has one entry for each of them. The entry reports
  \<open>healthy = true\<close> if and only if the balance check returned (did not throw) without an
  error text; it then carries the returned balance, whatever its sign, and otherwise the
  error text (\<open>Health check failed\<close> for a thrown value without a message) and no balance.
\<close>

theorem healthCheckAll_healthy_iff_no_error:
  assumes "distinct (map fst reg)"
    and "\<forall>e \<in> set reg. balance_outcome e \<noteq> Inl Nullish"
  shows "\<exists>results. fst (healthCheckAll reg) = Inr results \<and>
           snd (snd (healthCheckAll reg)) = map fst reg \<and>
           dom results = fst ` set reg \<and>
           (\<forall>e \<in> set reg. \<exists>h. results (fst e) = Some h \<and>
              (healthy h \<longleftrightarrow> (\<exists>b. balance_outcome e = Inr b \<and> \<not> truthy (bal_error b))) \<and>
              h = (case balance_outcome e of
                     Inr b \<Rightarrow>
                       if truthy (bal_error b)
                       then \<lparr>healthy = False, hc_message = or_else (bal_error b) [],
                             hc_balance = None\<rparr>
                       else \<lparr>healthy = True, hc_message = ''Provider is healthy'',
                             hc_balance = Some (balance b)\<rparr>
                   | Inl t \<Rightarrow>
                       \<lparr>healthy = False,
                        hc_message = or_else (safe_message t) ''Health check failed'',
                        hc_balance = None\<rparr>))"
proof -
  from healthCheckAll_loop_complete[OF assms(2), of Map.empty] assms(1)
  obtain r where r: "fst (healthCheckAll reg) = Inr r"
    "snd (snd (healthCheckAll reg)) = map fst reg"
    "dom r = fst ` set reg"
    "\<forall>e \<in> set reg. Inr (the (r (fst e))) = fst (healthCheck (snd (snd e)) (fst (snd e))) \<and>
                    r (fst e) \<noteq> None"
    unfolding healthCheckAll_def by auto
  have entry: "\<exists>h. r (fst e) = Some h \<and>
              (healthy h \<longleftrightarrow> (\<exists>b. balance_outcome e = Inr b \<and> \<not> truthy (bal_error b))) \<and>
              h = (case balance_outcome e of
                     Inr b \<Rightarrow>
                       if truthy (bal_error b)
                       then \<lparr>healthy = False, hc_message = or_else (bal_error b) [],
                             hc_balance = None\<rparr>
                       else \<lparr>healthy = True, hc_message = ''Provider is healthy'',
                             hc_balance = Some (balance b)\<rparr>
                   | Inl t \<Rightarrow>
                       \<lparr>healthy = False,
                        hc_message = or_else (safe_message t) ''Health check failed'',
                        hc_balance = None\<rparr>)"
    if mem: "e \<in> set reg" for e
  proof -
    from r(4) mem obtain h where h: "r (fst e) = Some h"
      "Inr h = fst (healthCheck (snd (snd e)) (fst (snd e)))"
      by fastforce
    have ok: "fst (checkBalance_impl (snd (snd e)) (fst (snd e))) \<noteq> Inl Nullish"
      using assms(2) mem by (simp add: balance_outcome_def)
    from healthCheck_returns[OF ok] h(2)
    have eq: "h = (case balance_outcome e of
                     Inr b \<Rightarrow>
                       if truthy (bal_error b)
                       then \<lparr>healthy = False, hc_message = or_else (bal_error b) [],
                             hc_balance = None\<rparr>
                       else \<lparr>healthy = True, hc_message = ''Provider is healthy'',
                             hc_balance = Some (balance b)\<rparr>
                   | Inl t \<Rightarrow>
                       \<lparr>healthy = False,
                        hc_message = or_else (safe_message t) ''Health check failed'',
                        hc_balance = None\<rparr>)"
      by (simp add: balance_outcome_def)
    have "healthy h \<longleftrightarrow> (\<exists>b. balance_outcome e = Inr b \<and> \<not> truthy (bal_error b))"
      unfolding eq by (cases "balance_outcome e") auto
    with h(1) eq show ?thesis by blast
  qed
  show ?thesis using r(1-3) entry by blast
qed

lemma registry_health_list:
  "registry_health = [(''overdrawn'', adapter_overdrawn), (''a'', adapter_a)]"
  by (simp add: registry_health_def providers_set_def)

lemma balance_outcome_overdrawn: "balance_outcome (k, adapter_overdrawn) = Inr balance_overdrawn"
  by (simp add: balance_outcome_def adapter_overdrawn_def stub_methods_def)

lemma balance_outcome_a: "balance_outcome (k, adapter_a) = Inr balance_unavailable"
  by (simp add: balance_outcome_def adapter_a_def stub_methods_def)

lemma balance_outcome_n: "balance_outcome (k, adapter_n) = Inl Nullish"
  by (simp add: balance_outcome_def adapter_n_def stub_methods_def)

lemma healthCheckAll_registry_health:
  "fst (healthCheckAll registry_health) =
     Inr [''overdrawn'' \<mapsto> \<lparr>healthy = True, hc_message = ''Provider is healthy'',
                              hc_balance = Some (- 5)\<rparr>,
          ''a'' \<mapsto> \<lparr>healthy = False, hc_message = ''Failed to get balance'',
                      hc_balance = None\<rparr>]"
  by (simp add: healthCheckAll_def registry_health_list healthCheck_def adapter_overdrawn_def
      adapter_a_def stub_methods_def balance_overdrawn_def balance_unavailable_def truthy_def
      or_else_def)

theorem healthCheckAll_healthy_iff_no_error_witness:
  "distinct (map fst registry_health) \<and>
   map balance_outcome registry_health = [Inr balance_overdrawn, Inr balance_unavailable] \<and>
   (\<exists>results. fst (healthCheckAll registry_health) = Inr results \<and>
      snd (snd (healthCheckAll registry_health)) = [''overdrawn'', ''a''] \<and>
      dom results = {''overdrawn'', ''a''} \<and>
      results ''overdrawn'' = Some \<lparr>healthy = True, hc_message = ''Provider is healthy'',
                                    hc_balance = Some (- 5)\<rparr> \<and>
      results ''a'' = Some \<lparr>healthy = False, hc_message = ''Failed to get balance'',
                            hc_balance = None\<rparr>)"
proof -
  have h1: "distinct (map fst registry_health)" by (simp add: registry_health_list)
  have h2: "\<forall>e \<in> set registry_health. balance_outcome e \<noteq> Inl Nullish"
    by (simp add: registry_health_list balance_outcome_overdrawn balance_outcome_a)
  from healthCheckAll_healthy_iff_no_error[OF h1 h2]
  obtain results where res: "fst (healthCheckAll registry_health) = Inr results"
    "snd (snd (healthCheckAll registry_health)) = map fst registry_health"
    "dom results = fst ` set registry_health"
    by blast
  from res(1) have "results = [''overdrawn'' \<mapsto> \<lparr>healthy = True,
        hc_message = ''Provider is healthy'', hc_balance = Some (- 5)\<rparr>,
      ''a'' \<mapsto> \<lparr>healthy = False, hc_message = ''Failed to get balance'', hc_balance = None\<rparr>]"
    by (simp add: healthCheckAll_registry_health)
  then have "results ''overdrawn'' = Some \<lparr>healthy = True, hc_message = ''Provider is healthy'',
                                    hc_balance = Some (- 5)\<rparr>"
    and "results ''a'' = Some \<lparr>healthy = False, hc_message = ''Failed to get balance'',
                            hc_balance = None\<rparr>"
    by simp_all
  with h1 res show ?thesis
    by (auto simp: registry_health_list balance_outcome_overdrawn balance_outcome_a)
qed

text \<open>
  Claim C8 as stated fails: a balance check that returns the balance -5 without an error
  is reported as healthy.
\<close>

theorem healthCheckAll_overdrawn_is_healthy:
  "balance_outcome (''overdrawn'', adapter_overdrawn) = Inr balance_overdrawn \<and>
   bal_error balance_overdrawn = None \<and> balance balance_overdrawn = - 5 \<and>
   \<not> spec_healthy (balance_outcome (''overdrawn'', adapter_overdrawn)) \<and>
   map_sum id (\<lambda>results. results ''overdrawn'') (fst (healthCheckAll registry_health)) =
     Inr (Some \<lparr>healthy = True, hc_message = ''Provider is healthy'', hc_balance = Some (- 5)\<rparr>)"
  by (simp add: balance_outcome_overdrawn healthCheckAll_registry_health spec_healthy_def
      balance_overdrawn_def)

text \<open>When a balance check throws \<open>undefined\<close>, \<open>healthCheckAll\<close> rejects and the adapters
  registered after it are not checked.\<close>

lemma healthCheckAll_registry_nb:
  "fst (healthCheckAll registry_nb) = Inl TypeError \<and>
   snd (snd (healthCheckAll registry_nb)) = [''n'']"
proof -
  obtain p m where pm: "adapter_n = (p, m)" by (cases adapter_n)
  have "balance_outcome (''n'', p, m) = Inl Nullish"
    using balance_outcome_n[of "''n''"] pm by simp
  from healthCheckAll_stops_at_thrown_undefined[OF this, of "[(''b'', adapter_b)]"]
  show ?thesis by (simp add: registry_nb_list pm)
qed

section \<open>Properties of \<open>checkDeliveryStatus\<close>\<close>

lemma probe_all_step_known:
  assumes "getDeliveryStatus_impl m provider eid = (Inr st, provider')" and "ds_status st \<noteq> Unknown"
  shows "probe_all ((k, provider, m) # rest) eid = (Some st, [(k, provider', m)])"
  using assms by simp

lemma probe_all_step_skip:
  assumes "getDeliveryStatus_impl m provider eid = (out, provider')"
    and "\<not> status_known out"
    and "probe_all rest eid = (r, touched)"
  shows "probe_all ((k, provider, m) # rest) eid = (r, (k, provider', m) # touched)"
  using assms by (cases out) (simp_all add: status_known_def)

lemma probe_all_result:
  "fst (probe_all reg eid) =
     (case find status_known (map (status_outcome eid) reg) of
        Some (Inr st) \<Rightarrow> Some st
      | _ \<Rightarrow> None)"
proof (induction reg eid rule: probe_all.induct)
  case (1 eid)
  then show ?case by simp
next
  case (2 k provider m rest eid)
  obtain out provider' where call: "getDeliveryStatus_impl m provider eid = (out, provider')"
    by (cases "getDeliveryStatus_impl m provider eid")
  then have so: "status_outcome eid (k, provider, m) = out" by (simp add: status_outcome_def)
  show ?case
  proof (cases "status_known out")
    case True
    then obtain st where st: "out = Inr st" "ds_status st \<noteq> Unknown"
      by (cases out) (auto simp: status_known_def)
    from probe_all_step_known[OF call[unfolded st(1)] st(2)] True so st
    show ?thesis by simp
  next
    case False
    obtain r touched where run: "probe_all rest eid = (r, touched)"
      by (cases "probe_all rest eid")
    have ih: "fst (probe_all rest eid) =
        (case find status_known (map (status_outcome eid) rest) of
           Some (Inr st) \<Rightarrow> Some st | _ \<Rightarrow> None)"
    proof (cases out)
      case (Inl error)
      from "2.IH"(1)[OF call[symmetric] Inl] show ?thesis .
    next
      case (Inr st)
      with False have "\<not> ds_status st \<noteq> Unknown" by (simp add: status_known_def)
      from "2.IH"(2)[OF call[symmetric] Inr this] show ?thesis .
    qed
    from probe_all_step_skip[OF call False run] False so ih run
    show ?thesis by simp
  qed
qed

lemma probe_all_queried:
  "map fst (snd (probe_all reg eid)) =
     map fst (takeWhile (\<lambda>e. \<not> status_known (status_outcome eid e)) reg) @
     map fst (take 1 (dropWhile (\<lambda>e. \<not> status_known (status_outcome eid e)) reg))"
proof (induction reg eid rule: probe_all.induct)
  case (1 eid)
  then show ?case by simp
next
  case (2 k provider m rest eid)
  obtain out provider' where call: "getDeliveryStatus_impl m provider eid = (out, provider')"
    by (cases "getDeliveryStatus_impl m provider eid")
  then have so: "status_outcome eid (k, provider, m) = out" by (simp add: status_outcome_def)
  show ?case
  proof (cases "status_known out")
    case True
    then obtain st where st: "out = Inr st" "ds_status st \<noteq> Unknown"
      by (cases out) (auto simp: status_known_def)
    from probe_all_step_known[OF call[unfolded st(1)] st(2)] True so
    show ?thesis by simp
  next
    case False
    obtain r touched where run: "probe_all rest eid = (r, touched)"
      by (cases "probe_all rest eid")
    have ih: "map fst (snd (probe_all rest eid)) =
       map fst (takeWhile (\<lambda>e. \<not> status_known (status_outcome eid e)) rest) @
       map fst (take 1 (dropWhile (\<lambda>e. \<not> status_known (status_outcome eid e)) rest))"
    proof (cases out)
      case (Inl error)
      from "2.IH"(1)[OF call[symmetric] Inl] show ?thesis .
    next
      case (Inr st)
      with False have "\<not> ds_status st \<noteq> Unknown" by (simp add: status_known_def)
      from "2.IH"(2)[OF call[symmetric] Inr this] show ?thesis .
    qed
    from probe_all_step_skip[OF call False run] False so ih run
    show ?thesis by simp
  qed
qed

text \<open>
  Claim C9, as the code has it: when \<open>providerName\<close> is supplied and resolves to a
  registered adapter, that adapter alone is queried. When \<open>providerName\<close> resolves to no
  registered adapter, or is absent or empty, the registered adapters are probed in
  registration order up to the first whose status is not \<open>unknown\<close>, which is returned;
  when none is found the result is \<open>unknown\<close> with an explanatory error. The statement
  gives the result of the named adapter as well: its status, \<open>unknown\<close> with the message of
  the value it throws, or a \<open>TypeError\<close> when it throws \<open>undefined\<close> or \<open>null\<close>.
\<close>

theorem checkDeliveryStatus_named_or_probe:
  "status_returned (checkDeliveryStatus toLowerCase reg eid providerName) =
     (case (if truthy providerName then getProvider toLowerCase reg (or_else providerName [])
            else None) of
        Some (p, m) \<Rightarrow>
          (case fst (getDeliveryStatus_impl m p eid) of
             Inr st \<Rightarrow> Inr st
           | Inl Nullish \<Rightarrow> Inl TypeError
           | Inl (Thrown_value error) \<Rightarrow>
               Inr \<lparr>ds_status = Unknown, ds_timestamp = None, ds_externalId = eid,
                    ds_error = err_message error\<rparr>)
      | None \<Rightarrow>
          Inr (case find status_known (map (status_outcome eid) reg) of
                 Some (Inr st) \<Rightarrow> st
               | _ \<Rightarrow>
                   \<lparr>ds_status = Unknown, ds_timestamp = None, ds_externalId = eid,
                    ds_error = Some ''Could not get status from any provider''\<rparr>)) \<and>
   queried (checkDeliveryStatus toLowerCase reg eid providerName) =
     (case (if truthy providerName then getProvider toLowerCase reg (or_else providerName [])
            else None) of
        Some (p, m) \<Rightarrow> [toLowerCase (or_else providerName [])]
      | None \<Rightarrow>
          map fst (takeWhile (\<lambda>e. \<not> status_known (status_outcome eid e)) reg) @
          map fst (take 1 (dropWhile (\<lambda>e. \<not> status_known (status_outcome eid e)) reg)))"
proof (cases "if truthy providerName then getProvider toLowerCase reg (or_else providerName [])
              else None")
  case None
  obtain r touched where run: "probe_all reg eid = (r, touched)"
    by (cases "probe_all reg eid")
  have r: "r = (case find status_known (map (status_outcome eid) reg) of
                  Some (Inr st) \<Rightarrow> Some st | _ \<Rightarrow> None)"
    using probe_all_result[of reg eid] run by simp
  have t: "map fst touched =
     map fst (takeWhile (\<lambda>e. \<not> status_known (status_outcome eid e)) reg) @
     map fst (take 1 (dropWhile (\<lambda>e. \<not> status_known (status_outcome eid e)) reg))"
    using probe_all_queried[of reg eid] run by simp
  show ?thesis
    using None run r t
    by (auto simp: checkDeliveryStatus_def checkDeliveryStatus_try_def getAllProviders_def
        split: option.splits sum.splits)
next
  case (Some pm)
  obtain p m where pm: "pm = (p, m)" by (cases pm)
  obtain out p' where call: "getDeliveryStatus_impl m p eid = (out, p')"
    by (cases "getDeliveryStatus_impl m p eid")
  show ?thesis
  proof (cases out)
    case (Inr st)
    with Some pm call show ?thesis
      by (simp add: checkDeliveryStatus_def checkDeliveryStatus_try_def)
  next
    case (Inl t)
    with Some pm call show ?thesis
      by (cases t)
         (simp_all add: checkDeliveryStatus_def checkDeliveryStatus_try_def read_message_def)
  qed
qed

lemma lower_zzz: "ascii_toLowerCase ''zzz'' = ''zzz''"
  by (simp add: ascii_toLowerCase_def)

lemma lower_B: "ascii_toLowerCase ''B'' = ''b''"
  by code_simp

lemma lookup_name_zzz: "getProvider ascii_toLowerCase registry_ab ''zzz'' = None"
  by (simp add: getProvider_def registry_ab_list lower_zzz)

lemma lookup_name_B: "getProvider ascii_toLowerCase registry_ab ''B'' = Some adapter_b"
  by (simp add: getProvider_def registry_ab_list lower_B)

lemma status_outcome_a: "status_outcome eid (k, adapter_a) = Inr status_unknown"
  by (simp add: status_outcome_def adapter_a_def stub_methods_def)

lemma status_outcome_b: "status_outcome eid (k, adapter_b) = Inr status_sent"
  by (simp add: status_outcome_def adapter_b_def stub_methods_def)

theorem checkDeliveryStatus_named_or_probe_witness:
  "getProvider ascii_toLowerCase registry_ab ''B'' = Some adapter_b \<and>
   status_returned (checkDeliveryStatus ascii_toLowerCase registry_ab ''abc123'' (Some ''B'')) =
     Inr status_sent \<and>
   queried (checkDeliveryStatus ascii_toLowerCase registry_ab ''abc123'' (Some ''B'')) = [''b''] \<and>
   status_returned (checkDeliveryStatus ascii_toLowerCase registry_ab ''abc123'' None) =
     Inr status_sent \<and>
   queried (checkDeliveryStatus ascii_toLowerCase registry_ab ''abc123'' None) = [''a'', ''b'']"
proof -
  have known: "\<not> status_known (Inr status_unknown)" "status_known (Inr status_sent)"
    by (simp_all add: status_known_def status_unknown_def status_sent_def)
  have call: "fst (getDeliveryStatus_impl (snd adapter_b) (fst adapter_b) ''abc123'') = Inr status_sent"
    by (simp add: adapter_b_def stub_methods_def)
  from checkDeliveryStatus_named_or_probe
         [of ascii_toLowerCase registry_ab "''abc123''" "Some ''B''"]
       checkDeliveryStatus_named_or_probe[of ascii_toLowerCase registry_ab "''abc123''" None]
  show ?thesis
    using lookup_name_B call known
    by (simp add: truthy_def or_else_def registry_ab_list status_outcome_a status_outcome_b
        case_prod_beta lower_B)
qed

text \<open>
  Claim C9 as stated fails: with a provider name that resolves to no registered adapter,
  the registered adapters are queried and the status of the second one is returned.
\<close>

theorem checkDeliveryStatus_unregistered_name_probes_all:
  "getProvider ascii_toLowerCase registry_ab ''zzz'' = None \<and>
   status_returned (checkDeliveryStatus ascii_toLowerCase registry_ab ''abc123'' (Some ''zzz'')) =
     Inr status_sent \<and>
   ds_status status_sent = Sent \<and>
   queried (checkDeliveryStatus ascii_toLowerCase registry_ab ''abc123'' (Some ''zzz'')) =
     [''a'', ''b'']"
proof -
  have "probe_all registry_ab ''abc123'' =
          (Some status_sent, [(''a'', adapter_a), (''b'', adapter_b)])"
    by (simp add: registry_ab_list adapter_a_def adapter_b_def stub_methods_def
        status_unknown_def status_sent_def new_provider_def)
  then show ?thesis
    using lookup_name_zzz
    by (simp add: checkDeliveryStatus_def checkDeliveryStatus_try_def getAllProviders_def
        truthy_def or_else_def status_sent_def)
qed

end
